theory Spec2Isabelle
  imports Complex_Main "HOL-Library.Stream" "HOL-Library.AList"
begin

section \<open>The Saga of Eldoria: combat engine of \<^verbatim>\<open>the_game.py\<close>\<close>

text \<open>
  The theory embeds the combat core of the game: the class \<^verbatim>\<open>Character\<close>, the class
  \<^verbatim>\<open>Item\<close> with its four effect functions, and the class \<^verbatim>\<open>Combat\<close>. Printing is left
  out; it has no influence on any value. Python integers are \<open>int\<close>. The three places
  where the source computes with floats (\<^verbatim>\<open>agility / 10\<close>, \<^verbatim>\<open>agility / 5\<close>,
  \<^verbatim>\<open>magic * 1.5\<close>) are modelled with exact rationals.
\<close>

subsection \<open>Items and characters\<close>

text \<open>
  The attribute \<^verbatim>\<open>Item.effect\<close> holds one of four functions of the module (or \<^verbatim>\<open>None\<close>,
  the default of the constructor). The functions are named by a tag and interpreted by
  \<open>run_effect\<close> below, since a character's inventory holds items.
\<close>

datatype effect_func =
  Use_health_potion | Use_scroll_of_protection | Use_elven_blade | Arcane_focus_lambda

text \<open>The attribute \<^verbatim>\<open>Item.name\<close> is the field \<open>iname\<close>.\<close>

record item =
  iname :: string
  description :: string
  effect :: "effect_func option"

record character =
  name :: string
  max_hp :: int
  current_hp :: int
  strength :: int
  agility :: int
  magic :: int
  ability_name :: string
  is_defending :: bool
  temp_defense_buff :: int
  inventory :: "(string \<times> item) list"
  weapon_boost :: int

text \<open>\<^verbatim>\<open>Character.__init__\<close>: full health, no combat state, empty inventory.\<close>

definition Character :: "string \<Rightarrow> int \<Rightarrow> int \<Rightarrow> int \<Rightarrow> int \<Rightarrow> string \<Rightarrow> character" where
  "Character nm str agi mag mhp abil =
     \<lparr>name = nm, max_hp = mhp, current_hp = mhp, strength = str, agility = agi,
      magic = mag, ability_name = abil, is_defending = False, temp_defense_buff = 0,
      inventory = [], weapon_boost = 0\<rparr>"

definition Warrior :: "string \<Rightarrow> character" where
  "Warrior nm = Character nm 14 8 5 120 ''Shield Bash''"

definition Mage :: "string \<Rightarrow> character" where
  "Mage nm = Character nm 6 9 15 90 ''Arcane Bolt''"

definition Rogue :: "string \<Rightarrow> character" where
  "Rogue nm = Character nm 10 13 7 100 ''Sneak Attack''"

text \<open>
  \<^verbatim>\<open>Character.take_damage\<close> returns the local variable \<^verbatim>\<open>damage\<close> and mutates the
  character; the model returns both.
\<close>

definition take_damage :: "character \<Rightarrow> int \<Rightarrow> int \<times> character" where
  "take_damage self damage =
     (let (damage1, self1) =
            (if is_defending self
             then (max 1 (damage div 2), self\<lparr>is_defending := False\<rparr>)
             else (damage, self));
          damage2 = max 1 (damage1 - temp_defense_buff self1);
          self2 = (if temp_defense_buff self1 > 0
                   then self1\<lparr>temp_defense_buff := 0\<rparr> else self1);
          self3 = self2\<lparr>current_hp := current_hp self2 - damage2\<rparr>
      in (damage2, self3\<lparr>current_hp := max 0 (current_hp self3)\<rparr>))"

definition heal :: "character \<Rightarrow> int \<Rightarrow> character" where
  "heal self amount = self\<lparr>current_hp := min (max_hp self) (current_hp self + amount)\<rparr>"

subsection \<open>Item effects\<close>

definition use_health_potion :: "character \<Rightarrow> character" where
  "use_health_potion player = heal player 40"

definition use_scroll_of_protection :: "character \<Rightarrow> character" where
  "use_scroll_of_protection player = player\<lparr>temp_defense_buff := 15\<rparr>"

definition use_elven_blade :: "character \<Rightarrow> character" where
  "use_elven_blade player =
     (if weapon_boost player = 0
      then (player\<lparr>weapon_boost := 5\<rparr>)\<lparr>strength := strength player + 5\<rparr>
      else player)"

text \<open>The lambda of \<^verbatim>\<open>ARCANE_FOCUS\<close>: magic first, then the boost marker.\<close>

definition arcane_focus_lambda :: "character \<Rightarrow> character" where
  "arcane_focus_lambda p =
     (if weapon_boost p = 0
      then (p\<lparr>magic := magic p + 5\<rparr>)\<lparr>weapon_boost := 5\<rparr>
      else p)"

fun run_effect :: "effect_func \<Rightarrow> character \<Rightarrow> character" where
  "run_effect Use_health_potion = use_health_potion"
| "run_effect Use_scroll_of_protection = use_scroll_of_protection"
| "run_effect Use_elven_blade = use_elven_blade"
| "run_effect Arcane_focus_lambda = arcane_focus_lambda"

text \<open>\<^verbatim>\<open>Item.use\<close>: true exactly when the item has an effect function.\<close>

definition use :: "item \<Rightarrow> character \<Rightarrow> bool \<times> character" where
  "use self target =
     (case effect self of
        Some f \<Rightarrow> (True, run_effect f target)
      | None \<Rightarrow> (False, target))"

definition HEALTH_POTION :: item where
  "HEALTH_POTION = \<lparr>iname = ''Health Potion'', description = ''Restores 40 HP.'',
     effect = Some Use_health_potion\<rparr>"

definition SCROLL_PROTECTION :: item where
  "SCROLL_PROTECTION = \<lparr>iname = ''Scroll of Protection'',
     description = ''Grants +15 temporary defense for the next turn.'',
     effect = Some Use_scroll_of_protection\<rparr>"

definition ELVEN_BLADE :: item where
  "ELVEN_BLADE = \<lparr>iname = ''Elven Blade'',
     description = ''A legendary weapon granting a permanent +5 Strength boost.'',
     effect = Some Use_elven_blade\<rparr>"

definition ARCANE_FOCUS :: item where
  "ARCANE_FOCUS = \<lparr>iname = ''Arcane Focus'',
     description = ''An ancient artifact granting a permanent +5 Magic boost.'',
     effect = Some Arcane_focus_lambda\<rparr>"

subsection \<open>The random source\<close>

text \<open>
  The module \<^verbatim>\<open>random\<close> is modelled as two tapes of the values it will return: one read
  by \<^verbatim>\<open>random.randint\<close>, one by \<^verbatim>\<open>random.random\<close>. The bounds of \<open>randint\<close> are
  kept for the reader; the tape decides the value, so every theorem below holds for
  whatever the generator returns.
\<close>

record rng =
  randints :: "int stream"
  randoms :: "rat stream"

definition randint :: "int \<Rightarrow> int \<Rightarrow> rng \<Rightarrow> int \<times> rng" where
  "randint a b g = (shd (randints g), g\<lparr>randints := stl (randints g)\<rparr>)"

definition random :: "rng \<Rightarrow> rat \<times> rng" where
  "random g = (shd (randoms g), g\<lparr>randoms := stl (randoms g)\<rparr>)"

text \<open>Python's \<^verbatim>\<open>int(x)\<close> on a float: truncation towards zero.\<close>

definition py_int :: "rat \<Rightarrow> int" where
  "py_int x = (if 0 \<le> x then \<lfloor>x\<rfloor> else \<lceil>x\<rceil>)"

subsection \<open>Combat\<close>

record combat =
  player :: character
  enemy :: character

text \<open>
  \<^verbatim>\<open>Combat._calculate_damage\<close>. The three rolls are always drawn, in this order. The
  attacker is only read; the defender is returned updated.
\<close>

definition calculate_damage ::
  "character \<Rightarrow> character \<Rightarrow> int \<Rightarrow> bool \<Rightarrow> rng \<Rightarrow> int \<times> character \<times> rng" where
  "calculate_damage attacker defender stat_multiplier is_magic g0 =
     (let (d6, g1) = randint 1 6 g0;
          base_damage = d6 * stat_multiplier;
          crit_chance = 5 + of_int (agility attacker) / (10 :: rat);
          (crit_roll, g2) = randint 1 100 g1;
          is_crit = (of_int crit_roll \<le> crit_chance);
          base_damage = (if is_crit then base_damage * 2 else base_damage);
          dodge_chance = of_int (agility defender) / (5 :: rat);
          (dodge_roll, g3) = randint 1 100 g2
      in if of_int dodge_roll \<le> dodge_chance then (0, defender, g3)
         else (let (damage_taken, defender') = take_damage defender base_damage
               in (damage_taken, defender', g3)))"

definition player_attack :: "combat \<Rightarrow> rng \<Rightarrow> combat \<times> rng" where
  "player_attack self g =
     (let effective_strength = strength (player self) + weapon_boost (player self);
          (dmg, e', g') = calculate_damage (player self) (enemy self) effective_strength False g
      in (self\<lparr>enemy := e'\<rparr>, g'))"

definition player_defend :: "combat \<Rightarrow> combat" where
  "player_defend self = self\<lparr>player := (player self)\<lparr>is_defending := True\<rparr>\<rparr>"

definition player_magic :: "combat \<Rightarrow> rng \<Rightarrow> combat \<times> rng" where
  "player_magic self0 g =
     (let self = self0\<lparr>player := (player self0)\<lparr>temp_defense_buff := 0\<rparr>\<rparr>;
          ability = ability_name (player self)
      in if ability = ''Shield Bash'' then
           (let self1 = self\<lparr>player := (player self)\<lparr>is_defending := True\<rparr>\<rparr>;
                (d6, g1) = randint 1 6 g;
                counter_damage =
                  d6 * (strength (player self1) + weapon_boost (player self1)) div 2;
                (damage_taken, e') = take_damage (enemy self1) (max 1 counter_damage)
            in (self1\<lparr>enemy := e'\<rparr>, g1))
         else if ability = ''Arcane Bolt'' then
           (let (miss_roll, g1) = randint 1 100 g
            in if miss_roll \<le> 10 then (self, g1)
               else (let effective_magic = py_int (of_int (magic (player self)) * (3 / 2));
                         (dmg, e', g2) =
                           calculate_damage (player self) (enemy self) effective_magic True g1
                     in (self\<lparr>enemy := e'\<rparr>, g2)))
         else if ability = ''Sneak Attack'' then
           (let (d6, g1) = randint 1 6 g;
                base_damage = d6 * (strength (player self) + weapon_boost (player self));
                (crit_roll, g2) = randint 1 100 g1;
                is_crit = (of_int crit_roll \<le> 20 + of_int (agility (player self)) / (10 :: rat));
                base_damage = (if is_crit then base_damage * 2 else base_damage);
                (damage_taken, e') = take_damage (enemy self) base_damage
            in (self\<lparr>enemy := e'\<rparr>, g2))
         else (self, g))"

text \<open>
  Console input is a tape of the lines still to come, each already normalised the way
  the call site does it (\<^verbatim>\<open>.strip().title()\<close> for an item name, \<^verbatim>\<open>.strip().lower()\<close> for an
  action). \<^verbatim>\<open>input\<close> on an exhausted tape raises \<^verbatim>\<open>EOFError\<close>, which nothing in
  \<^verbatim>\<open>Combat\<close> catches.
\<close>

datatype error = EOFError

text \<open>
  The \<^verbatim>\<open>while True\<close> loop of \<^verbatim>\<open>Combat._player_use_item\<close>. The result \<open>Some b\<close> is the
  Python boolean \<open>b\<close>.
\<close>

fun player_use_item_loop ::
  "combat \<Rightarrow> string list \<Rightarrow> error + (bool option \<times> combat \<times> string list)" where
  "player_use_item_loop self [] = Inl EOFError"
| "player_use_item_loop self (item_name # ins) =
     (if item_name = ''Cancel'' then Inr (Some False, self, ins)
      else case map_of (inventory (player self)) item_name of
        Some item \<Rightarrow>
          if item_name \<in> {''Elven Blade'', ''Arcane Focus''} \<and> weapon_boost (player self) \<noteq> 0
          then player_use_item_loop self ins
          else (let (used, p') = use item (player self)
                in if used
                   then Inr (Some True,
                          self\<lparr>player :=
                            (if item_name \<notin> {''Elven Blade'', ''Arcane Focus''}
                             then p'\<lparr>inventory := AList.delete item_name (inventory p')\<rparr>
                             else p')\<rparr>,
                          ins)
                   else player_use_item_loop (self\<lparr>player := p'\<rparr>) ins)
      | None \<Rightarrow> player_use_item_loop self ins)"

text \<open>
  \<^verbatim>\<open>Combat._player_use_item\<close>: with an empty inventory it returns without a value
  (\<^verbatim>\<open>None\<close>) and reads no input.
\<close>

definition player_use_item ::
  "combat \<Rightarrow> string list \<Rightarrow> error + (bool option \<times> combat \<times> string list)" where
  "player_use_item self ins =
     (if inventory (player self) = [] then Inr (None, self, ins)
      else player_use_item_loop self ins)"

text \<open>\<^verbatim>\<open>Combat._enemy_special_move\<close>, dispatched on the enemy's name.\<close>

definition enemy_special_move :: "combat \<Rightarrow> rng \<Rightarrow> combat \<times> rng" where
  "enemy_special_move self g =
     (let enemy_name = name (enemy self)
      in if enemy_name = ''Minor Bandit'' then
           (let (d4, g1) = randint 1 4 g;
                damage = d4 * strength (enemy self);
                is_defending_temp = is_defending (player self);
                p0 = (player self)\<lparr>is_defending := False\<rparr>;
                (damage_taken, p1) = take_damage p0 damage
            in (self\<lparr>player := p1\<lparr>is_defending := is_defending_temp\<rparr>\<rparr>, g1))
         else if enemy_name = ''Bandit King'' then
           (let p0 = (player self)\<lparr>temp_defense_buff := 5\<rparr>;
                (dmg, p1, g1) = calculate_damage (enemy self) p0 (strength (enemy self)) False g
            in (self\<lparr>player := p1\<rparr>, g1))
         else if enemy_name = ''Arch-Lich, Final Boss'' then
           (let (roll, g1) = randint 4 10 g;
                damage = roll * magic (enemy self);
                (damage_taken, p1) = take_damage (player self) damage;
                heal_amount = damage_taken div 2;
                e1 = (enemy self)\<lparr>current_hp :=
                       min (max_hp (enemy self)) (current_hp (enemy self) + heal_amount)\<rparr>
            in (self\<lparr>player := p1, enemy := e1\<rparr>, g1))
         else
           (let (dmg, p1, g1) =
                  calculate_damage (enemy self) (player self) (strength (enemy self)) False g
            in (self\<lparr>player := p1\<rparr>, g1)))"

text \<open>\<^verbatim>\<open>Combat._enemy_turn\<close>: the player's defence flag is cleared before anything else.\<close>

definition enemy_turn :: "combat \<Rightarrow> rng \<Rightarrow> combat \<times> rng" where
  "enemy_turn self0 g =
     (let self = self0\<lparr>player := (player self0)\<lparr>is_defending := False\<rparr>\<rparr>;
          (u, g1) = random g
      in if u < 7 / 10 then
           (let (dmg, p1, g2) =
                  calculate_damage (enemy self) (player self) (strength (enemy self)) False g1
            in (self\<lparr>player := p1\<rparr>, g2))
         else enemy_special_move self g1)"

lemma player_use_item_loop_shorter:
  "player_use_item_loop self ins = Inr (r, self', ins') \<Longrightarrow> length ins' < length ins"
proof (induction ins arbitrary: self)
  case Nil
  then show ?case by simp
next
  case (Cons item_name ins)
  have step: "\<And>s. player_use_item_loop s ins = Inr (r, self', ins') \<Longrightarrow> length ins' < Suc (length ins)"
    using Cons.IH by fastforce
  from Cons.prems show ?case
    by (auto split: if_splits option.splits prod.splits simp: Let_def dest: step)
qed

lemma player_use_item_shorter:
  "player_use_item self ins = Inr (r, self', ins') \<Longrightarrow> length ins' \<le> length ins"
  by (auto simp: player_use_item_def split: if_splits
           dest: player_use_item_loop_shorter)

text \<open>
  The inner loop \<^verbatim>\<open>while not action_spent\<close> of \<^verbatim>\<open>Combat.start_combat\<close>: one player
  turn, which ends when an action has spent it.
\<close>

function player_turn ::
  "combat \<Rightarrow> string list \<Rightarrow> rng \<Rightarrow> error + (combat \<times> string list \<times> rng)" where
  "player_turn self [] g = Inl EOFError"
| "player_turn self (user_input # ins) g =
     (if user_input \<in> {''attack'', ''defend'', ''magic'', ''item'', ''stats''} then
        (if user_input = ''item'' then
           (case player_use_item self ins of
              Inl e \<Rightarrow> Inl e
            | Inr (r, self', ins') \<Rightarrow>
                if r = Some True then Inr (self', ins', g) else player_turn self' ins' g)
         else if user_input = ''stats'' then player_turn self ins g
         else if user_input = ''attack'' then
           (let (self', g') = player_attack self g in Inr (self', ins, g'))
         else if user_input = ''defend'' then Inr (player_defend self, ins, g)
         else (let (self', g') = player_magic self g in Inr (self', ins, g')))
      else player_turn self ins g)"
  by pat_completeness auto
termination
  by (relation "measure (\<lambda>(self, ins, g). length ins)")
     (auto dest: player_use_item_shorter)


lemma player_turn_shorter:
  "player_turn self ins g = Inr (self', ins', g') \<Longrightarrow> length ins' < length ins"
proof (induction "length ins" arbitrary: self ins g rule: less_induct)
  case less
  show ?case
  proof (cases ins)
    case Nil
    with less.prems show ?thesis by simp
  next
    case (Cons user_input rest)
    have IH: "\<And>s i. length i \<le> length rest \<Longrightarrow> player_turn s i g = Inr (self', ins', g')
                \<Longrightarrow> length ins' < Suc (length rest)"
    proof -
      fix s i
      assume a: "length i \<le> length rest" and b: "player_turn s i g = Inr (self', ins', g')"
      from a Cons have "length i < length ins" by simp
      from less.hyps [OF this b] a show "length ins' < Suc (length rest)" by simp
    qed
    from less.prems show ?thesis unfolding Cons
      by (auto split: if_splits sum.splits prod.splits
               dest: player_use_item_shorter IH [rotated])
  qed
qed

text \<open>
  \<^verbatim>\<open>Combat.start_combat\<close>: the outer loop, with the two early returns after the player's
  turn and the final \<^verbatim>\<open>return self.player.current_hp > 0\<close>. The result carries the
  returned boolean and the state the encounter ends in.
\<close>

function start_combat ::
  "combat \<Rightarrow> string list \<Rightarrow> rng \<Rightarrow> error + (bool \<times> combat \<times> string list \<times> rng)" where
  "start_combat self ins g =
     (if current_hp (player self) > 0 \<and> current_hp (enemy self) > 0 then
        (case player_turn self ins g of
           Inl e \<Rightarrow> Inl e
         | Inr (self1, ins1, g1) \<Rightarrow>
             if current_hp (player self1) \<le> 0 then Inr (False, self1, ins1, g1)
             else if current_hp (enemy self1) \<le> 0 then Inr (True, self1, ins1, g1)
             else (let (self2, g2) = enemy_turn self1 g1 in start_combat self2 ins1 g2))
      else Inr (current_hp (player self) > 0, self, ins, g))"
  by pat_completeness auto
termination
  by (relation "measure (\<lambda>(self, ins, g). length ins)")
     (auto dest: player_turn_shorter)

declare start_combat.simps [simp del]

text \<open>The invariant of the data model on a character's hit points.\<close>

definition hp_ok :: "character \<Rightarrow> bool" where
  "hp_ok c = (0 \<le> current_hp c \<and> current_hp c \<le> max_hp c)"

text \<open>Both characters of an encounter satisfy it.\<close>

definition combat_ok :: "combat \<Rightarrow> bool" where
  "combat_ok cb = (hp_ok (player cb) \<and> hp_ok (enemy cb))"

section \<open>Properties\<close>

subsection \<open>Damage and healing\<close>

lemma take_damage_fst:
  "fst (take_damage c d) =
     max 1 ((if is_defending c then max 1 (d div 2) else d) - temp_defense_buff c)"
  by (simp add: take_damage_def Let_def split: prod.splits)

lemma take_damage_ge_1: "1 \<le> fst (take_damage c d)"
  by (simp add: take_damage_fst)

lemma take_damage_hp:
  "current_hp (snd (take_damage c d)) = max 0 (current_hp c - fst (take_damage c d))"
  by (simp add: take_damage_def Let_def split: prod.splits)

lemma take_damage_max_hp: "max_hp (snd (take_damage c d)) = max_hp c"
  by (simp add: take_damage_def Let_def split: prod.splits)

lemma take_damage_hp_ok: "hp_ok c \<Longrightarrow> hp_ok (snd (take_damage c d))"
  using take_damage_ge_1 [of c d]
  by (simp add: hp_ok_def take_damage_hp take_damage_max_hp)

lemma take_damage_buff:
  "temp_defense_buff (snd (take_damage c d)) = min 0 (temp_defense_buff c)"
  by (simp add: take_damage_def Let_def split: prod.splits)

lemma take_damage_defending: "\<not> is_defending (snd (take_damage c d))"
  by (simp add: take_damage_def Let_def split: prod.splits)

lemma heal_hp_ok: "hp_ok c \<Longrightarrow> 0 \<le> amount \<Longrightarrow> hp_ok (heal c amount)"
  by (simp add: hp_ok_def heal_def)

lemma calculate_damage_dodged:
  "of_int (shd (stl (stl (randints g)))) \<le> of_int (agility c) / (5 :: rat) \<Longrightarrow>
   calculate_damage a c m mg g = (0, c, g\<lparr>randints := stl (stl (stl (randints g)))\<rparr>)"
  by (simp add: calculate_damage_def randint_def Let_def split: prod.splits)

lemma calculate_damage_hit:
  "\<not> of_int (shd (stl (stl (randints g)))) \<le> of_int (agility c) / (5 :: rat) \<Longrightarrow>
   calculate_damage a c m mg g =
     (fst (take_damage c
        (if of_int (shd (stl (randints g))) \<le> 5 + of_int (agility a) / (10 :: rat)
         then shd (randints g) * m * 2 else shd (randints g) * m)),
      snd (take_damage c
        (if of_int (shd (stl (randints g))) \<le> 5 + of_int (agility a) / (10 :: rat)
         then shd (randints g) * m * 2 else shd (randints g) * m)),
      g\<lparr>randints := stl (stl (stl (randints g)))\<rparr>)"
  by (simp add: calculate_damage_def randint_def Let_def split: prod.splits)

lemma calculate_damage_dodge:
  "(fst (calculate_damage a c m mg g) = 0)
     = (of_int (shd (stl (stl (randints g)))) \<le> of_int (agility c) / (5 :: rat))"
proof (cases "of_int (shd (stl (stl (randints g)))) \<le> of_int (agility c) / (5 :: rat)")
  case True
  then show ?thesis by (simp add: calculate_damage_dodged)
next
  case False
  have "1 \<le> fst (take_damage c
        (if of_int (shd (stl (randints g))) \<le> 5 + of_int (agility a) / (10 :: rat)
         then shd (randints g) * m * 2 else shd (randints g) * m))"
    by (rule take_damage_ge_1)
  with False show ?thesis by (simp add: calculate_damage_hit del: of_int_mult)
qed

lemma calculate_damage_dodged_unchanged:
  "fst (calculate_damage a c m mg g) = 0 \<Longrightarrow> fst (snd (calculate_damage a c m mg g)) = c"
  by (simp add: calculate_damage_dodge calculate_damage_dodged)

lemma calculate_damage_hp_ok:
  "hp_ok c \<Longrightarrow> hp_ok (fst (snd (calculate_damage a c m mg g)))"
  by (cases "of_int (shd (stl (stl (randints g)))) \<le> of_int (agility c) / (5 :: rat)")
     (simp_all add: calculate_damage_dodged calculate_damage_hit take_damage_hp_ok)

text \<open>
  Claim C2, as amended. \<open>take_damage\<close> returns the damage left after mitigation (the halving
  of a defending character, then the buff, each floored at 1), and the hit points drop
  to \<open>max 0 (current_hp - damage)\<close>. The returned value is the amount subtracted from the
  hit points exactly when it does not exceed the hit points before the call; on an
  overkill the hit points stop at 0 and the returned value is the larger, mitigated
  damage.
\<close>

theorem take_damage_return_value:
  "fst (take_damage c d) =
     max 1 ((if is_defending c then max 1 (d div 2) else d) - temp_defense_buff c)
   \<and> current_hp (snd (take_damage c d)) = max 0 (current_hp c - fst (take_damage c d))
   \<and> ((fst (take_damage c d) = current_hp c - current_hp (snd (take_damage c d)))
        = (fst (take_damage c d) \<le> current_hp c))"
proof -
  have hp: "current_hp (snd (take_damage c d)) = max 0 (current_hp c - fst (take_damage c d))"
    by (rule take_damage_hp)
  have "1 \<le> fst (take_damage c d)" by (rule take_damage_ge_1)
  with hp have "(fst (take_damage c d) = current_hp c - current_hp (snd (take_damage c d)))
        = (fst (take_damage c d) \<le> current_hp c)"
    by (auto simp: max_def)
  with hp take_damage_fst [of c d] show ?thesis by simp
qed

text \<open>
  Claim C2 as stated fails on an overkill: 84 damage against the Minor Bandit at 60 hit
  points returns 84, while the hit points go from 60 to 0.
\<close>

theorem take_damage_return_counterexample:
  "\<not> (fst (take_damage (Character ''Minor Bandit'' 8 10 5 60 ''Quick Strike'') 84)
       = current_hp (Character ''Minor Bandit'' 8 10 5 60 ''Quick Strike'')
         - current_hp (snd (take_damage (Character ''Minor Bandit'' 8 10 5 60 ''Quick Strike'') 84)))"
  by (simp add: take_damage_def Character_def)

text \<open>
  Claim C10. A living character loses at least one hit point in every call of
  \<open>take_damage\<close>, whatever the amount, the defence flag and the buff: the returned damage
  is at least 1. An attack resolved by \<open>calculate_damage\<close> deals 0 exactly when the dodge
  roll succeeds, and then the defender is returned untouched (\<open>take_damage\<close> is not
  called).
\<close>

theorem take_damage_at_least_one:
  "0 < current_hp c \<Longrightarrow>
     1 \<le> fst (take_damage c d)
     \<and> current_hp (snd (take_damage c d)) \<le> current_hp c - 1
     \<and> ((fst (calculate_damage a c m mg g) = 0)
          = (of_int (shd (stl (stl (randints g)))) \<le> of_int (agility c) / (5 :: rat)))
     \<and> (fst (calculate_damage a c m mg g) = 0 \<longrightarrow>
          fst (snd (calculate_damage a c m mg g)) = c)"
proof -
  assume pos: "0 < current_hp c"
  have ge: "1 \<le> fst (take_damage c d)" by (rule take_damage_ge_1)
  with pos have "current_hp (snd (take_damage c d)) \<le> current_hp c - 1"
    by (simp add: take_damage_hp)
  with ge show ?thesis
    by (simp add: calculate_damage_dodge calculate_damage_dodged_unchanged)
qed

text \<open>
  Witness for C10: a defending Warrior under a Scroll of Protection hit for 0 still
  loses one hit point; with a dodge roll of 1 against agility 8 the attack is dodged.
\<close>

theorem take_damage_at_least_one_witness:
  "0 < current_hp ((Warrior ''Hero'')\<lparr>is_defending := True, temp_defense_buff := 15\<rparr>)
   \<and> fst (take_damage ((Warrior ''Hero'')\<lparr>is_defending := True, temp_defense_buff := 15\<rparr>) 0) = 1
   \<and> current_hp (snd (take_damage
         ((Warrior ''Hero'')\<lparr>is_defending := True, temp_defense_buff := 15\<rparr>) 0)) = 119
   \<and> fst (calculate_damage (Warrior ''Hero'')
         ((Warrior ''Hero'')\<lparr>is_defending := True, temp_defense_buff := 15\<rparr>) 0 False
         \<lparr>randints = [6, 100, 1] @- sconst 1, randoms = sconst 0\<rparr>) = 0"
  using take_damage_at_least_one
    [of "(Warrior ''Hero'')\<lparr>is_defending := True, temp_defense_buff := 15\<rparr>" 0
        "Warrior ''Hero''" 0 False "\<lparr>randints = [6, 100, 1] @- sconst 1, randoms = sconst 0\<rparr>"]
  by (simp add: take_damage_def Warrior_def Character_def)

subsection \<open>The enemy's special moves\<close>

lemma use_health_potion_hp_ok: "hp_ok c \<Longrightarrow> hp_ok (use_health_potion c)"
  by (simp add: use_health_potion_def heal_hp_ok)

lemma arcane_drain_unfold:
  "name (enemy cb) = ''Arch-Lich, Final Boss'' \<Longrightarrow>
   enemy_special_move cb g =
     (cb\<lparr>player := snd (take_damage (player cb) (shd (randints g) * magic (enemy cb))),
         enemy := (enemy cb)\<lparr>current_hp :=
           min (max_hp (enemy cb))
               (current_hp (enemy cb)
                + fst (take_damage (player cb) (shd (randints g) * magic (enemy cb))) div 2)\<rparr>\<rparr>,
      g\<lparr>randints := stl (randints g)\<rparr>)"
  by (simp add: enemy_special_move_def randint_def Let_def split: prod.splits)

lemma quick_strike_unfold:
  "name (enemy cb) = ''Minor Bandit'' \<Longrightarrow>
   enemy_special_move cb g =
     (cb\<lparr>player := (snd (take_damage ((player cb)\<lparr>is_defending := False\<rparr>)
                          (shd (randints g) * strength (enemy cb))))
                    \<lparr>is_defending := is_defending (player cb)\<rparr>\<rparr>,
      g\<lparr>randints := stl (randints g)\<rparr>)"
  by (simp add: enemy_special_move_def randint_def Let_def split: prod.splits)

lemma kings_roar_unfold:
  "name (enemy cb) = ''Bandit King'' \<Longrightarrow>
   enemy_special_move cb g =
     (cb\<lparr>player := fst (snd (calculate_damage (enemy cb)
                   ((player cb)\<lparr>temp_defense_buff := 5\<rparr>) (strength (enemy cb)) False g))\<rparr>,
      snd (snd (calculate_damage (enemy cb)
                   ((player cb)\<lparr>temp_defense_buff := 5\<rparr>) (strength (enemy cb)) False g)))"
  by (simp add: enemy_special_move_def Let_def split: prod.splits)

lemma default_move_unfold:
  "name (enemy cb) \<noteq> ''Minor Bandit'' \<Longrightarrow> name (enemy cb) \<noteq> ''Bandit King'' \<Longrightarrow>
   name (enemy cb) \<noteq> ''Arch-Lich, Final Boss'' \<Longrightarrow>
   enemy_special_move cb g =
     (cb\<lparr>player := fst (snd (calculate_damage (enemy cb) (player cb)
                                (strength (enemy cb)) False g))\<rparr>,
      snd (snd (calculate_damage (enemy cb) (player cb) (strength (enemy cb)) False g)))"
  by (simp add: enemy_special_move_def Let_def split: prod.splits)

lemma hp_ok_fields:
  "hp_ok (c\<lparr>is_defending := b\<rparr>) = hp_ok c"
  "hp_ok (c\<lparr>temp_defense_buff := n\<rparr>) = hp_ok c"
  "hp_ok (c\<lparr>inventory := xs\<rparr>) = hp_ok c"
  "hp_ok (c\<lparr>weapon_boost := w\<rparr>) = hp_ok c"
  "hp_ok (c\<lparr>strength := s\<rparr>) = hp_ok c"
  "hp_ok (c\<lparr>magic := m\<rparr>) = hp_ok c"
  by (simp_all add: hp_ok_def)

lemma enemy_special_move_hp_ok:
  assumes "hp_ok (player cb)" and "hp_ok (enemy cb)"
  shows "hp_ok (player (fst (enemy_special_move cb g)))
         \<and> hp_ok (enemy (fst (enemy_special_move cb g)))"
proof -
  consider (bandit) "name (enemy cb) = ''Minor Bandit''"
    | (king) "name (enemy cb) = ''Bandit King''"
    | (lich) "name (enemy cb) = ''Arch-Lich, Final Boss''"
    | (other) "name (enemy cb) \<noteq> ''Minor Bandit''" "name (enemy cb) \<noteq> ''Bandit King''"
        "name (enemy cb) \<noteq> ''Arch-Lich, Final Boss''"
    by blast
  then show ?thesis
  proof cases
    case bandit
    with assms show ?thesis
      by (simp add: quick_strike_unfold hp_ok_fields take_damage_hp_ok)
  next
    case king
    with assms show ?thesis
      by (simp add: kings_roar_unfold hp_ok_fields calculate_damage_hp_ok)
  next
    case lich
    have "0 \<le> fst (take_damage (player cb) (shd (randints g) * magic (enemy cb))) div 2"
      using take_damage_ge_1 [of "player cb" "shd (randints g) * magic (enemy cb)"] by simp
    with assms(2) have "hp_ok ((enemy cb)\<lparr>current_hp :=
           min (max_hp (enemy cb))
               (current_hp (enemy cb)
                + fst (take_damage (player cb) (shd (randints g) * magic (enemy cb))) div 2)\<rparr>)"
      by (simp add: hp_ok_def)
    with lich assms(1) show ?thesis
      by (simp add: arcane_drain_unfold take_damage_hp_ok)
  next
    case other
    with assms show ?thesis
      by (simp add: default_move_unfold calculate_damage_hp_ok)
  qed
qed

text \<open>
  Claim C7. The invariant \<open>0 \<le> current_hp \<le> max_hp\<close> holds for a character as the
  constructor builds it (for a non-negative \<open>max_hp\<close>, as every character of the game
  has), and each operation that writes the hit points keeps it: \<open>take_damage\<close> for any
  amount, \<open>heal\<close> for a non-negative amount (the game only heals by 40, through the Health
  Potion), and the enemy's special move for every enemy name, which includes the
  Arch-Lich's healing of itself.
\<close>

theorem hp_invariant_preserved:
  "(0 \<le> mhp \<longrightarrow> hp_ok (Character nm str agi mag mhp abil))
   \<and> (hp_ok c \<longrightarrow> hp_ok (snd (take_damage c d)))
   \<and> (hp_ok c \<and> 0 \<le> amount \<longrightarrow> hp_ok (heal c amount))
   \<and> (hp_ok c \<longrightarrow> hp_ok (use_health_potion c))
   \<and> (hp_ok (player cb) \<and> hp_ok (enemy cb) \<longrightarrow>
        hp_ok (player (fst (enemy_special_move cb g)))
        \<and> hp_ok (enemy (fst (enemy_special_move cb g))))"
proof -
  have "0 \<le> mhp \<longrightarrow> hp_ok (Character nm str agi mag mhp abil)"
    by (simp add: hp_ok_def Character_def)
  moreover have "hp_ok c \<longrightarrow> hp_ok (snd (take_damage c d))"
    by (simp add: take_damage_hp_ok)
  moreover have "hp_ok c \<and> 0 \<le> amount \<longrightarrow> hp_ok (heal c amount)"
    by (simp add: heal_hp_ok)
  moreover have "hp_ok c \<longrightarrow> hp_ok (use_health_potion c)"
    by (simp add: use_health_potion_hp_ok)
  moreover have "hp_ok (player cb) \<and> hp_ok (enemy cb) \<longrightarrow>
        hp_ok (player (fst (enemy_special_move cb g)))
        \<and> hp_ok (enemy (fst (enemy_special_move cb g)))"
    using enemy_special_move_hp_ok by blast
  ultimately show ?thesis by blast
qed

text \<open>
  Witness for C7: the Minor Bandit as created; 84 damage on it; a Warrior at 100 of 120
  healed by 40; and the Arch-Lich at 190 of 200 draining a Mage at 50 with a roll of 4
  (72 damage, 36 healed, capped at 200).
\<close>

theorem hp_invariant_preserved_witness:
  "hp_ok (Character ''Minor Bandit'' 8 10 5 60 ''Quick Strike'')
   \<and> current_hp (snd (take_damage (Character ''Minor Bandit'' 8 10 5 60 ''Quick Strike'') 84)) = 0
   \<and> current_hp (heal ((Warrior ''Hero'')\<lparr>current_hp := 100\<rparr>) 40) = 120
   \<and> hp_ok (use_health_potion ((Warrior ''Hero'')\<lparr>current_hp := 100\<rparr>))
   \<and> current_hp (player (fst (enemy_special_move
        \<lparr>player = (Mage ''Hero'')\<lparr>current_hp := 50\<rparr>,
         enemy = (Character ''Arch-Lich, Final Boss'' 10 15 18 200 ''Arcane Drain'')
                   \<lparr>current_hp := 190\<rparr>\<rparr>
        \<lparr>randints = sconst 4, randoms = sconst 0\<rparr>))) = 0
   \<and> current_hp (enemy (fst (enemy_special_move
        \<lparr>player = (Mage ''Hero'')\<lparr>current_hp := 50\<rparr>,
         enemy = (Character ''Arch-Lich, Final Boss'' 10 15 18 200 ''Arcane Drain'')
                   \<lparr>current_hp := 190\<rparr>\<rparr>
        \<lparr>randints = sconst 4, randoms = sconst 0\<rparr>))) = 200"
  using hp_invariant_preserved
    [of 60 "''Minor Bandit''" 8 10 5 "''Quick Strike''"
        "(Warrior ''Hero'')\<lparr>current_hp := 100\<rparr>" 84 40
        "\<lparr>player = (Mage ''Hero'')\<lparr>current_hp := 50\<rparr>,
         enemy = (Character ''Arch-Lich, Final Boss'' 10 15 18 200 ''Arcane Drain'')
                   \<lparr>current_hp := 190\<rparr>\<rparr>"
        "\<lparr>randints = sconst 4, randoms = sconst 0\<rparr>"]
  by (simp add: hp_ok_def take_damage_def heal_def use_health_potion_def Character_def
        Warrior_def Mage_def arcane_drain_unfold)



lemma calculate_damage_attacker_buff:
  "calculate_damage (a\<lparr>temp_defense_buff := b\<rparr>) d m mg g = calculate_damage a d m mg g"
  by (simp add: calculate_damage_def)

lemma player_attack_buff:
  "enemy (fst (player_attack (cb\<lparr>player := (player cb)\<lparr>temp_defense_buff := b\<rparr>\<rparr>) g))
     = enemy (fst (player_attack cb g))
   \<and> snd (player_attack (cb\<lparr>player := (player cb)\<lparr>temp_defense_buff := b\<rparr>\<rparr>) g)
     = snd (player_attack cb g)"
  by (simp add: player_attack_def calculate_damage_attacker_buff Let_def split: prod.splits)

lemma player_magic_buff:
  "player_magic (cb\<lparr>player := (player cb)\<lparr>temp_defense_buff := b\<rparr>\<rparr>) g = player_magic cb g"
  by (simp add: player_magic_def)

text \<open>
  Claim C8. King's Roar is \<open>calculate_damage\<close> with the enemy's strength against the
  player whose buff has just been set to 5. When that attack is not dodged, the 5 is
  subtracted from it inside \<open>take_damage\<close> and the buff is 0 afterwards; when it is
  dodged, the player keeps the buff 5. The player's own attacks do not read the buff:
  the enemy that \<open>player_attack\<close> leaves is the same for every value of the buff, and
  \<open>player_magic\<close> overwrites it with 0 on entry.
\<close>

theorem kings_roar:
  "name (enemy cb) = ''Bandit King'' \<Longrightarrow>
     enemy_special_move cb g =
       (cb\<lparr>player := fst (snd (calculate_damage (enemy cb)
                   ((player cb)\<lparr>temp_defense_buff := 5\<rparr>) (strength (enemy cb)) False g))\<rparr>,
        snd (snd (calculate_damage (enemy cb)
                   ((player cb)\<lparr>temp_defense_buff := 5\<rparr>) (strength (enemy cb)) False g)))
     \<and> (\<not> of_int (shd (stl (stl (randints g)))) \<le> of_int (agility (player cb)) / (5 :: rat) \<longrightarrow>
          (let base = (if of_int (shd (stl (randints g))) \<le> 5 + of_int (agility (enemy cb)) / (10 :: rat)
                       then shd (randints g) * strength (enemy cb) * 2
                       else shd (randints g) * strength (enemy cb));
               halved = (if is_defending (player cb) then max 1 (base div 2) else base)
           in temp_defense_buff (player (fst (enemy_special_move cb g))) = 0
              \<and> current_hp (player (fst (enemy_special_move cb g)))
                  = max 0 (current_hp (player cb) - max 1 (halved - 5))))
     \<and> (of_int (shd (stl (stl (randints g)))) \<le> of_int (agility (player cb)) / (5 :: rat) \<longrightarrow>
          player (fst (enemy_special_move cb g)) = (player cb)\<lparr>temp_defense_buff := 5\<rparr>)
     \<and> enemy (fst (player_attack (cb\<lparr>player := (player cb)\<lparr>temp_defense_buff := b\<rparr>\<rparr>) g'))
          = enemy (fst (player_attack cb g'))
     \<and> player_magic (cb\<lparr>player := (player cb)\<lparr>temp_defense_buff := b\<rparr>\<rparr>) g'
          = player_magic cb g'"
proof -
  assume king: "name (enemy cb) = ''Bandit King''"
  let ?p5 = "(player cb)\<lparr>temp_defense_buff := 5\<rparr>"
  let ?dodged = "of_int (shd (stl (stl (randints g)))) \<le> of_int (agility (player cb)) / (5 :: rat)"
  have hit: "\<not> ?dodged \<longrightarrow>
          (let base = (if of_int (shd (stl (randints g))) \<le> 5 + of_int (agility (enemy cb)) / (10 :: rat)
                       then shd (randints g) * strength (enemy cb) * 2
                       else shd (randints g) * strength (enemy cb));
               halved = (if is_defending (player cb) then max 1 (base div 2) else base)
           in temp_defense_buff (player (fst (enemy_special_move cb g))) = 0
              \<and> current_hp (player (fst (enemy_special_move cb g)))
                  = max 0 (current_hp (player cb) - max 1 (halved - 5)))"
  proof
    assume nd: "\<not> ?dodged"
    then have nd': "\<not> of_int (shd (stl (stl (randints g)))) \<le> of_int (agility ?p5) / (5 :: rat)"
      by simp
    show "(let base = (if of_int (shd (stl (randints g))) \<le> 5 + of_int (agility (enemy cb)) / (10 :: rat)
                       then shd (randints g) * strength (enemy cb) * 2
                       else shd (randints g) * strength (enemy cb));
               halved = (if is_defending (player cb) then max 1 (base div 2) else base)
           in temp_defense_buff (player (fst (enemy_special_move cb g))) = 0
              \<and> current_hp (player (fst (enemy_special_move cb g)))
                  = max 0 (current_hp (player cb) - max 1 (halved - 5)))"
      unfolding kings_roar_unfold [OF king] calculate_damage_hit [OF nd'] Let_def
      by (simp add: take_damage_buff take_damage_hp take_damage_fst)
  qed
  have dodge: "?dodged \<longrightarrow> player (fst (enemy_special_move cb g)) = ?p5"
  proof
    assume d: "?dodged"
    then have d': "of_int (shd (stl (stl (randints g)))) \<le> of_int (agility ?p5) / (5 :: rat)"
      by simp
    show "player (fst (enemy_special_move cb g)) = ?p5"
      unfolding kings_roar_unfold [OF king] calculate_damage_dodged [OF d'] by simp
  qed
  from king hit dodge show ?thesis
    using kings_roar_unfold [OF king, of g] player_attack_buff [of b cb g']
      player_magic_buff [of b cb g']
    by blast
qed

text \<open>
  Witness for C8: the Bandit King (strength 12) roars at a fresh Warrior; die 3, no
  critical hit, no dodge: \<open>36 - 5 = 31\<close> damage, 89 hit points left, buff 0.
\<close>

theorem kings_roar_witness:
  "name (Character ''Bandit King'' 12 9 7 150 ''King's Roar'') = ''Bandit King''
   \<and> temp_defense_buff (player (fst (enemy_special_move
        \<lparr>player = Warrior ''Hero'', enemy = Character ''Bandit King'' 12 9 7 150 ''King's Roar''\<rparr>
        \<lparr>randints = [3, 100, 100] @- sconst 1, randoms = sconst 0\<rparr>))) = 0
   \<and> current_hp (player (fst (enemy_special_move
        \<lparr>player = Warrior ''Hero'', enemy = Character ''Bandit King'' 12 9 7 150 ''King's Roar''\<rparr>
        \<lparr>randints = [3, 100, 100] @- sconst 1, randoms = sconst 0\<rparr>))) = 89"
  using kings_roar
    [of "\<lparr>player = Warrior ''Hero'', enemy = Character ''Bandit King'' 12 9 7 150 ''King's Roar''\<rparr>"
        "\<lparr>randints = [3, 100, 100] @- sconst 1, randoms = sconst 0\<rparr>"
        5 "\<lparr>randints = sconst 1, randoms = sconst 0\<rparr>"]
  by (simp add: Character_def Warrior_def enemy_special_move_def calculate_damage_def
        randint_def take_damage_def)

subsection \<open>Defending\<close>

lemma enemy_turn_defending:
  "enemy_turn (cb\<lparr>player := (player cb)\<lparr>is_defending := b\<rparr>\<rparr>) g = enemy_turn cb g"
  by (simp add: enemy_turn_def)

text \<open>
  Claim C1 does not hold of the code. \<open>enemy_turn\<close> clears the player's defence flag
  before the enemy attacks, so the enemy's turn after Defend is the enemy's turn without
  it, and the halving branch of \<open>take_damage\<close> is never taken on it. At the input below
  the Warrior defends, the Minor Bandit (strength 8) makes a standard attack with die 3,
  no critical hit and no dodge: \<open>take_damage\<close> on the defending Warrior would return 12,
  but the enemy's turn takes the full 24.
\<close>

theorem defend_cleared_before_enemy_attack:
  "enemy_turn (player_defend cb) g = enemy_turn cb g
   \<and> is_defending (player (player_defend
        \<lparr>player = Warrior ''Hero'',
         enemy = Character ''Minor Bandit'' 8 10 5 60 ''Quick Strike''\<rparr>))
   \<and> fst (take_damage (player (player_defend
        \<lparr>player = Warrior ''Hero'',
         enemy = Character ''Minor Bandit'' 8 10 5 60 ''Quick Strike''\<rparr>)) (3 * 8)) = 12
   \<and> current_hp (player (fst (enemy_turn
        (player_defend
          \<lparr>player = Warrior ''Hero'',
           enemy = Character ''Minor Bandit'' 8 10 5 60 ''Quick Strike''\<rparr>)
        \<lparr>randints = [3, 100, 100] @- sconst 1, randoms = sconst (1 / 2)\<rparr>))) = 120 - 24"
proof -
  have "enemy_turn (player_defend cb) g = enemy_turn cb g"
    by (simp add: player_defend_def enemy_turn_defending)
  then show ?thesis
    by (simp add: player_defend_def enemy_turn_def random_def calculate_damage_def
          randint_def take_damage_def Warrior_def Character_def)
qed

text \<open>The same after Shield Bash (die 1 for the counter-attack).\<close>

lemma shield_bash_then_enemy_turn:
  "current_hp (player (fst (enemy_turn
        (fst (player_magic
          \<lparr>player = Warrior ''Hero'',
           enemy = Character ''Minor Bandit'' 8 10 5 60 ''Quick Strike''\<rparr>
          \<lparr>randints = [1, 3, 100, 100] @- sconst 1, randoms = sconst (1 / 2)\<rparr>))
        (snd (player_magic
          \<lparr>player = Warrior ''Hero'',
           enemy = Character ''Minor Bandit'' 8 10 5 60 ''Quick Strike''\<rparr>
          \<lparr>randints = [1, 3, 100, 100] @- sconst 1, randoms = sconst (1 / 2)\<rparr>))))) = 120 - 24"
  by (simp add: player_magic_def enemy_turn_def random_def calculate_damage_def
          randint_def take_damage_def Warrior_def Character_def)

subsection \<open>The permanent items\<close>

lemma use_elven_blade_effective_strength:
  "weapon_boost p = 0 \<Longrightarrow>
   strength (use_elven_blade p) + weapon_boost (use_elven_blade p)
     = strength p + weapon_boost p + 10"
  by (simp add: use_elven_blade_def)

text \<open>
  Claim C4 does not hold of the code. The Elven Blade adds 5 to \<open>strength\<close> and sets
  \<open>weapon_boost\<close> to 5, and \<open>player_attack\<close> adds the two: the Warrior's effective
  strength goes from 14 to 24. With die 1, no critical hit and no dodge, the attack on
  the Bandit King deals 14 before the blade and 24 after it.
\<close>

theorem elven_blade_double_counted:
  "weapon_boost (Warrior ''Hero'') = 0
   \<and> strength (Warrior ''Hero'') + weapon_boost (Warrior ''Hero'') = 14
   \<and> strength (snd (use ELVEN_BLADE (Warrior ''Hero'')))
       + weapon_boost (snd (use ELVEN_BLADE (Warrior ''Hero''))) = 24
   \<and> current_hp (enemy (fst (player_attack
        \<lparr>player = Warrior ''Hero'',
         enemy = Character ''Bandit King'' 12 9 7 150 ''King's Roar''\<rparr>
        \<lparr>randints = [1, 100, 100] @- sconst 1, randoms = sconst 0\<rparr>))) = 150 - 14
   \<and> current_hp (enemy (fst (player_attack
        \<lparr>player = snd (use ELVEN_BLADE (Warrior ''Hero'')),
         enemy = Character ''Bandit King'' 12 9 7 150 ''King's Roar''\<rparr>
        \<lparr>randints = [1, 100, 100] @- sconst 1, randoms = sconst 0\<rparr>))) = 150 - 24"
  by (simp add: use_def ELVEN_BLADE_def use_elven_blade_def player_attack_def
        calculate_damage_def randint_def take_damage_def Warrior_def Character_def)

lemma player_use_item_loop_guard:
  "item_name \<noteq> ''Cancel'' \<Longrightarrow> map_of (inventory (player cb)) item_name = Some it \<Longrightarrow>
   item_name \<in> {''Elven Blade'', ''Arcane Focus''} \<Longrightarrow> weapon_boost (player cb) \<noteq> 0 \<Longrightarrow>
   player_use_item_loop cb (item_name # ins) = player_use_item_loop cb ins"
  by simp


text \<open>
  Claim C5, as amended. On a character without a boost, the first \<open>use\<close> of the Elven
  Blade adds 5 to \<open>strength\<close> and sets \<open>weapon_boost\<close> to 5 (the Arcane Focus: 5 to
  \<open>magic\<close>); a second \<open>use\<close> changes nothing. Both calls return \<open>True\<close>: \<open>use\<close> reports
  that the item has an effect function. The reuse is refused one level up, by the guard
  of \<open>player_use_item_loop\<close> above, before \<open>use\<close> is called.
\<close>

theorem use_twice:
  "weapon_boost p = 0 \<Longrightarrow>
     fst (use ELVEN_BLADE p)
     \<and> snd (use ELVEN_BLADE p) = p\<lparr>weapon_boost := 5, strength := strength p + 5\<rparr>
     \<and> snd (use ELVEN_BLADE (snd (use ELVEN_BLADE p))) = snd (use ELVEN_BLADE p)
     \<and> fst (use ELVEN_BLADE (snd (use ELVEN_BLADE p)))
     \<and> fst (use ARCANE_FOCUS p)
     \<and> snd (use ARCANE_FOCUS p) = p\<lparr>magic := magic p + 5, weapon_boost := 5\<rparr>
     \<and> snd (use ARCANE_FOCUS (snd (use ARCANE_FOCUS p))) = snd (use ARCANE_FOCUS p)
     \<and> fst (use ARCANE_FOCUS (snd (use ARCANE_FOCUS p)))"
  by (simp add: use_def ELVEN_BLADE_def ARCANE_FOCUS_def use_elven_blade_def
        arcane_focus_lambda_def)

text \<open>Witness for C5: the Warrior (strength 14, magic 5) uses each item twice.\<close>

theorem use_twice_witness:
  "weapon_boost (Warrior ''Hero'') = 0
   \<and> strength (snd (use ELVEN_BLADE (Warrior ''Hero''))) = 19
   \<and> strength (snd (use ELVEN_BLADE (snd (use ELVEN_BLADE (Warrior ''Hero''))))) = 19
   \<and> fst (use ELVEN_BLADE (snd (use ELVEN_BLADE (Warrior ''Hero''))))
   \<and> magic (snd (use ARCANE_FOCUS (snd (use ARCANE_FOCUS (Warrior ''Hero''))))) = 10"
  using use_twice [of "Warrior ''Hero''"]
  by (simp add: Warrior_def Character_def use_def ELVEN_BLADE_def ARCANE_FOCUS_def
        use_elven_blade_def arcane_focus_lambda_def)

text \<open>
  Claim C5 as stated fails in its last part: the second \<open>use\<close> of the Elven Blade on the
  Warrior leaves the three fields unchanged but returns \<open>True\<close>, not a failure.
\<close>

theorem use_twice_counterexample:
  "\<not> (let p1 = snd (use ELVEN_BLADE (Warrior ''Hero''));
           (ok2, p2) = use ELVEN_BLADE p1
       in strength p2 = strength p1 \<and> magic p2 = magic p1
          \<and> weapon_boost p2 = weapon_boost p1 \<and> \<not> ok2)"
  by (simp add: use_def ELVEN_BLADE_def use_elven_blade_def Warrior_def Character_def)

subsection \<open>Arcane Bolt\<close>

lemma floor_rat_numeral: "\<lfloor>numeral a / numeral b :: rat\<rfloor> = numeral a div numeral b"
  using floor_divide_of_int_eq [of "numeral a" "numeral b", where ?'a = rat] by simp

lemma py_int_nonneg: "0 \<le> m \<Longrightarrow> py_int (of_int m * (3 / 2)) = (3 * m) div 2"
proof -
  assume m: "0 \<le> m"
  have "of_int m * (3 / 2 :: rat) = of_int (3 * m) / of_int 2" by simp
  then have "\<lfloor>of_int m * (3 / 2 :: rat)\<rfloor> = (3 * m) div 2"
    by (simp only: floor_divide_of_int_eq)
  with m show ?thesis by (simp add: py_int_def)
qed

text \<open>
  Claim C3, as amended. When the miss roll is above 10, Arcane Bolt is
  \<open>calculate_damage\<close> with the power \<^verbatim>\<open>int(magic * 1.5)\<close>, computed from the field
  \<open>magic\<close> alone: \<open>weapon_boost\<close> is not added (the Arcane Focus has already added its 5
  to \<open>magic\<close> itself). For a non-negative \<open>magic\<close> the power is \<open>3 * magic div 2\<close>, the
  floor of \<open>magic * 1.5\<close>.
\<close>

theorem arcane_bolt_power:
  "ability_name (player cb) = ''Arcane Bolt'' \<Longrightarrow> 10 < shd (randints g) \<Longrightarrow>
     player_magic cb g =
       (cb\<lparr>player := (player cb)\<lparr>temp_defense_buff := 0\<rparr>,
           enemy := fst (snd (calculate_damage ((player cb)\<lparr>temp_defense_buff := 0\<rparr>) (enemy cb)
                      (py_int (of_int (magic (player cb)) * (3 / 2))) True
                      (g\<lparr>randints := stl (randints g)\<rparr>)))\<rparr>,
        snd (snd (calculate_damage ((player cb)\<lparr>temp_defense_buff := 0\<rparr>) (enemy cb)
                      (py_int (of_int (magic (player cb)) * (3 / 2))) True
                      (g\<lparr>randints := stl (randints g)\<rparr>))))
     \<and> (0 \<le> magic (player cb) \<longrightarrow>
          py_int (of_int (magic (player cb)) * (3 / 2)) = (3 * magic (player cb)) div 2)"
proof -
  assume bolt: "ability_name (player cb) = ''Arcane Bolt''" and hit: "10 < shd (randints g)"
  have power: "0 \<le> magic (player cb) \<longrightarrow>
          py_int (of_int (magic (player cb)) * (3 / 2)) = (3 * magic (player cb)) div 2"
    using py_int_nonneg by blast
  from bolt hit have "player_magic cb g =
       (cb\<lparr>player := (player cb)\<lparr>temp_defense_buff := 0\<rparr>,
           enemy := fst (snd (calculate_damage ((player cb)\<lparr>temp_defense_buff := 0\<rparr>) (enemy cb)
                      (py_int (of_int (magic (player cb)) * (3 / 2))) True
                      (g\<lparr>randints := stl (randints g)\<rparr>)))\<rparr>,
        snd (snd (calculate_damage ((player cb)\<lparr>temp_defense_buff := 0\<rparr>) (enemy cb)
                      (py_int (of_int (magic (player cb)) * (3 / 2))) True
                      (g\<lparr>randints := stl (randints g)\<rparr>))))"
    by (simp add: player_magic_def randint_def Let_def split: prod.splits)
  with power show ?thesis by blast
qed

text \<open>
  Witness for C3: a Mage after the Arcane Focus (magic 20, boost 5) casts at the Bandit
  King; miss roll 50, die 1, no critical hit, no dodge: power 30, 120 of 150 hit points
  left.
\<close>

theorem arcane_bolt_power_witness:
  "ability_name (snd (use ARCANE_FOCUS (Mage ''Hero''))) = ''Arcane Bolt''
   \<and> (10 :: int) < shd (randints \<lparr>randints = [50, 1, 100, 100] @- sconst 1, randoms = sconst 0\<rparr>)
   \<and> magic (snd (use ARCANE_FOCUS (Mage ''Hero''))) = 20
   \<and> weapon_boost (snd (use ARCANE_FOCUS (Mage ''Hero''))) = 5
   \<and> py_int (of_int (magic (snd (use ARCANE_FOCUS (Mage ''Hero'')))) * (3 / 2)) = 30
   \<and> current_hp (enemy (fst (player_magic
        \<lparr>player = snd (use ARCANE_FOCUS (Mage ''Hero'')),
         enemy = Character ''Bandit King'' 12 9 7 150 ''King's Roar''\<rparr>
        \<lparr>randints = [50, 1, 100, 100] @- sconst 1, randoms = sconst 0\<rparr>))) = 120"
  using arcane_bolt_power
    [of "\<lparr>player = snd (use ARCANE_FOCUS (Mage ''Hero'')),
         enemy = Character ''Bandit King'' 12 9 7 150 ''King's Roar''\<rparr>"
        "\<lparr>randints = [50, 1, 100, 100] @- sconst 1, randoms = sconst 0\<rparr>"]
  by (simp add: use_def ARCANE_FOCUS_def arcane_focus_lambda_def Mage_def Character_def
        calculate_damage_def randint_def take_damage_def py_int_def Let_def
        floor_rat_numeral)

text \<open>
  Claim C3 as stated fails at the same input: with the power
  \<open>\<lfloor>(magic + weapon_boost) * 1.5\<rfloor> = \<lfloor>25 * 1.5\<rfloor> = 37\<close> the enemy would be left at 113 hit
  points, and the code leaves it at 120.
\<close>

theorem arcane_bolt_power_counterexample:
  "\<not> (enemy (fst (player_magic
        \<lparr>player = snd (use ARCANE_FOCUS (Mage ''Hero'')),
         enemy = Character ''Bandit King'' 12 9 7 150 ''King's Roar''\<rparr>
        \<lparr>randints = [50, 1, 100, 100] @- sconst 1, randoms = sconst 0\<rparr>))
      = fst (snd (calculate_damage
          ((snd (use ARCANE_FOCUS (Mage ''Hero'')))\<lparr>temp_defense_buff := 0\<rparr>)
          (Character ''Bandit King'' 12 9 7 150 ''King's Roar'')
          \<lfloor>of_int (magic (snd (use ARCANE_FOCUS (Mage ''Hero'')))
                   + weapon_boost (snd (use ARCANE_FOCUS (Mage ''Hero'')))) * (3 / 2 :: rat)\<rfloor>
          True
          \<lparr>randints = [1, 100, 100] @- sconst 1, randoms = sconst 0\<rparr>)))"
  by (simp add: player_magic_def use_def ARCANE_FOCUS_def arcane_focus_lambda_def Mage_def
        Character_def calculate_damage_def randint_def take_damage_def py_int_def Let_def
        floor_rat_numeral)

lemma arcane_bolt_claimed_power_value:
  "current_hp (fst (snd (calculate_damage
          ((snd (use ARCANE_FOCUS (Mage ''Hero'')))\<lparr>temp_defense_buff := 0\<rparr>)
          (Character ''Bandit King'' 12 9 7 150 ''King's Roar'')
          \<lfloor>of_int (magic (snd (use ARCANE_FOCUS (Mage ''Hero'')))
                   + weapon_boost (snd (use ARCANE_FOCUS (Mage ''Hero'')))) * (3 / 2 :: rat)\<rfloor>
          True
          \<lparr>randints = [1, 100, 100] @- sconst 1, randoms = sconst 0\<rparr>))) = 113"
  by (simp add: player_magic_def use_def ARCANE_FOCUS_def arcane_focus_lambda_def Mage_def
        Character_def calculate_damage_def randint_def take_damage_def py_int_def Let_def
        floor_rat_numeral)

subsection \<open>The encounter\<close>

lemma player_attack_ok: "combat_ok cb \<Longrightarrow> combat_ok (fst (player_attack cb g))"
  by (simp add: combat_ok_def player_attack_def Let_def calculate_damage_hp_ok
        split: prod.splits)
     (metis calculate_damage_hp_ok fst_conv snd_conv)

lemma player_defend_ok: "combat_ok cb \<Longrightarrow> combat_ok (player_defend cb)"
  by (simp add: combat_ok_def player_defend_def hp_ok_fields)

lemma player_magic_ok: "combat_ok cb \<Longrightarrow> combat_ok (fst (player_magic cb g))"
proof -
  assume ok: "combat_ok cb"
  have cd: "\<And>a m mg g' x e' g''. calculate_damage a (enemy cb) m mg g' = (x, e', g'') \<Longrightarrow> hp_ok e'"
    using ok calculate_damage_hp_ok [of "enemy cb"] unfolding combat_ok_def
    by (metis fst_conv snd_conv)
  have td: "\<And>d x e'. take_damage (enemy cb) d = (x, e') \<Longrightarrow> hp_ok e'"
    using ok take_damage_hp_ok [of "enemy cb"] unfolding combat_ok_def
    by (metis snd_conv)
  from ok show ?thesis
    by (auto simp: combat_ok_def player_magic_def Let_def hp_ok_fields
             split: prod.splits dest: cd td)
qed

lemma run_effect_ok: "hp_ok p \<Longrightarrow> hp_ok (run_effect f p)"
  by (cases f)
     (simp_all add: use_health_potion_hp_ok use_scroll_of_protection_def use_elven_blade_def
        arcane_focus_lambda_def hp_ok_fields)

lemma use_ok: "hp_ok p \<Longrightarrow> hp_ok (snd (use it p))"
  by (simp add: use_def run_effect_ok split: option.splits)

lemma player_use_item_loop_ok:
  "player_use_item_loop cb ins = Inr (r, cb', ins') \<Longrightarrow> combat_ok cb \<Longrightarrow> combat_ok cb'"
proof (induction ins arbitrary: cb)
  case Nil
  then show ?case by simp
next
  case (Cons item_name ins)
  have u1: "\<And>it b p'. use it (player cb) = (b, p') \<Longrightarrow> combat_ok (cb\<lparr>player := p'\<rparr>)"
    using Cons.prems(2) use_ok [of "player cb"] unfolding combat_ok_def
    by (metis combat.select_convs(1,2) combat.surjective combat.update_convs(1) snd_conv)
  have u2: "\<And>it b p' xs. use it (player cb) = (b, p') \<Longrightarrow>
              combat_ok (cb\<lparr>player := p'\<lparr>inventory := xs\<rparr>\<rparr>)"
    using u1 by (simp add: combat_ok_def hp_ok_fields)
  from Cons.prems show ?case
    by (auto simp: Let_def split: if_splits option.splits prod.splits
             intro: Cons.IH u1 u2)
qed

lemma player_use_item_ok:
  "player_use_item cb ins = Inr (r, cb', ins') \<Longrightarrow> combat_ok cb \<Longrightarrow> combat_ok cb'"
  by (auto simp: player_use_item_def split: if_splits dest: player_use_item_loop_ok)

lemma player_turn_ok:
  "player_turn cb ins g = Inr (cb', ins', g') \<Longrightarrow> combat_ok cb \<Longrightarrow> combat_ok cb'"
proof (induction "length ins" arbitrary: cb ins g rule: less_induct)
  case less
  show ?case
  proof (cases ins)
    case Nil
    with less.prems show ?thesis by simp
  next
    case (Cons user_input rest)
    have IH: "\<And>s i. length i \<le> length rest \<Longrightarrow> combat_ok s \<Longrightarrow>
                player_turn s i g = Inr (cb', ins', g') \<Longrightarrow> combat_ok cb'"
    proof -
      fix s i
      assume a: "length i \<le> length rest" and ok: "combat_ok s"
        and b: "player_turn s i g = Inr (cb', ins', g')"
      from a Cons have "length i < length ins" by simp
      from less.hyps [OF this b ok] show "combat_ok cb'" .
    qed
    have att: "\<And>x y. player_attack cb g = (x, y) \<Longrightarrow> combat_ok x"
      using player_attack_ok [OF less.prems(2), of g] by simp
    have mag: "\<And>x y. player_magic cb g = (x, y) \<Longrightarrow> combat_ok x"
      using player_magic_ok [OF less.prems(2), of g] by simp
    have item: "\<And>r s i. player_use_item cb rest = Inr (r, s, i) \<Longrightarrow>
                  combat_ok s \<and> length i \<le> length rest"
      using player_use_item_ok [OF _ less.prems(2)] player_use_item_shorter by blast
    from less.prems show ?thesis unfolding Cons
      by (auto split: if_splits sum.splits prod.splits
               dest: att mag item IH [rotated 2] player_defend_ok
               intro: IH [of rest cb])
  qed
qed

lemma enemy_turn_unfold:
  "enemy_turn cb g =
     (if shd (randoms g) < 7 / 10
      then (cb\<lparr>player := fst (snd (calculate_damage (enemy cb)
                      ((player cb)\<lparr>is_defending := False\<rparr>) (strength (enemy cb)) False
                      (g\<lparr>randoms := stl (randoms g)\<rparr>)))\<rparr>,
            snd (snd (calculate_damage (enemy cb)
                      ((player cb)\<lparr>is_defending := False\<rparr>) (strength (enemy cb)) False
                      (g\<lparr>randoms := stl (randoms g)\<rparr>))))
      else enemy_special_move (cb\<lparr>player := (player cb)\<lparr>is_defending := False\<rparr>\<rparr>)
             (g\<lparr>randoms := stl (randoms g)\<rparr>))"
  by (simp add: enemy_turn_def random_def Let_def split: prod.splits)

lemma enemy_turn_ok: "combat_ok cb \<Longrightarrow> combat_ok (fst (enemy_turn cb g))"
proof -
  assume ok: "combat_ok cb"
  let ?cb = "cb\<lparr>player := (player cb)\<lparr>is_defending := False\<rparr>\<rparr>"
  from ok have ok': "hp_ok (player ?cb)" "hp_ok (enemy ?cb)"
    by (simp_all add: combat_ok_def hp_ok_fields)
  show ?thesis
  proof (cases "shd (randoms g) < 7 / 10")
    case True
    have "hp_ok (fst (snd (calculate_damage (enemy cb)
                      ((player cb)\<lparr>is_defending := False\<rparr>) (strength (enemy cb)) False
                      (g\<lparr>randoms := stl (randoms g)\<rparr>))))"
      using ok by (simp add: calculate_damage_hp_ok combat_ok_def hp_ok_fields)
    with True ok show ?thesis by (simp add: enemy_turn_unfold combat_ok_def)
  next
    case False
    with enemy_special_move_hp_ok [OF ok'] show ?thesis
      by (simp add: enemy_turn_unfold combat_ok_def)
  qed
qed

lemma start_combat_final:
  "start_combat cb ins g = Inr (victory, cb', ins', g') \<Longrightarrow> combat_ok cb \<Longrightarrow>
   combat_ok cb'
   \<and> (victory \<longrightarrow> 0 < current_hp (player cb') \<and> current_hp (enemy cb') \<le> 0)
   \<and> (\<not> victory \<longrightarrow> current_hp (player cb') \<le> 0)"
proof (induction "length ins" arbitrary: cb ins g rule: less_induct)
  case less
  let ?goal = "combat_ok cb'
   \<and> (victory \<longrightarrow> 0 < current_hp (player cb') \<and> current_hp (enemy cb') \<le> 0)
   \<and> (\<not> victory \<longrightarrow> current_hp (player cb') \<le> 0)"
  show ?case
  proof (cases "0 < current_hp (player cb) \<and> 0 < current_hp (enemy cb)")
    case False
    with less.prems show ?thesis
      by (subst (asm) start_combat.simps) auto
  next
    case True
    with less.prems(1) obtain cb1 ins1 g1 where
      pt: "player_turn cb ins g = Inr (cb1, ins1, g1)" and
      rest: "(if current_hp (player cb1) \<le> 0 then Inr (False, cb1, ins1, g1)
              else if current_hp (enemy cb1) \<le> 0 then Inr (True, cb1, ins1, g1)
              else start_combat (fst (enemy_turn cb1 g1)) ins1 (snd (enemy_turn cb1 g1)))
             = Inr (victory, cb', ins', g')"
      by (subst (asm) start_combat.simps)
         (auto split: sum.splits prod.splits if_splits simp: Let_def)
    from pt less.prems(2) have ok1: "combat_ok cb1" by (rule player_turn_ok)
    from pt have shorter: "length ins1 < length ins" by (rule player_turn_shorter)
    show ?thesis
    proof (cases "current_hp (player cb1) \<le> 0")
      case True
      with rest ok1 show ?thesis by auto
    next
      case alive: False
      show ?thesis
      proof (cases "current_hp (enemy cb1) \<le> 0")
        case True
        with rest alive ok1 show ?thesis by auto
      next
        case False
        with rest alive have rec:
          "start_combat (fst (enemy_turn cb1 g1)) ins1 (snd (enemy_turn cb1 g1))
             = Inr (victory, cb', ins', g')" by simp
        from ok1 have "combat_ok (fst (enemy_turn cb1 g1))" by (rule enemy_turn_ok)
        from less.hyps [OF shorter rec this] show ?thesis .
      qed
    qed
  qed
qed

text \<open>
  Claim C6. Whenever \<open>start_combat\<close> returns, on characters that satisfy the invariant of
  the data model when it is called, it returns \<open>True\<close> exactly when the enemy's hit
  points are 0 and the player's are positive, and \<open>False\<close> exactly when the player's
  hit points are 0, in the state the encounter ends in.
\<close>

theorem start_combat_outcome:
  "start_combat cb ins g = Inr (victory, cb', ins', g') \<Longrightarrow>
   hp_ok (player cb) \<Longrightarrow> hp_ok (enemy cb) \<Longrightarrow>
     (victory = (current_hp (enemy cb') = 0 \<and> 0 < current_hp (player cb')))
     \<and> ((\<not> victory) = (current_hp (player cb') = 0))"
proof -
  assume run: "start_combat cb ins g = Inr (victory, cb', ins', g')"
    and p: "hp_ok (player cb)" and e: "hp_ok (enemy cb)"
  from p e have "combat_ok cb" by (simp add: combat_ok_def)
  from start_combat_final [OF run this]
  have ok: "combat_ok cb'"
    and v: "victory \<longrightarrow> 0 < current_hp (player cb') \<and> current_hp (enemy cb') \<le> 0"
    and nv: "\<not> victory \<longrightarrow> current_hp (player cb') \<le> 0"
    by blast+
  from ok have "0 \<le> current_hp (player cb')" "0 \<le> current_hp (enemy cb')"
    by (simp_all add: combat_ok_def hp_ok_def)
  with v nv show ?thesis by auto
qed

text \<open>
  Witness for C6: the Warrior looks at the stats (no turn spent), defends, takes a
  standard attack of the Minor Bandit (die 3: 24 damage) and then attacks with die 6,
  no critical hit, no dodge: 84 damage against 60 hit points, victory.
\<close>

theorem start_combat_outcome_witness:
  "hp_ok (Warrior ''Hero'') \<and> hp_ok (Character ''Minor Bandit'' 8 10 5 60 ''Quick Strike'')
   \<and> start_combat
        \<lparr>player = Warrior ''Hero'',
         enemy = Character ''Minor Bandit'' 8 10 5 60 ''Quick Strike''\<rparr>
        [''stats'', ''defend'', ''attack'']
        \<lparr>randints = [3, 100, 100, 6, 100, 100] @- sconst 1, randoms = sconst (1 / 2)\<rparr>
      = Inr (True,
          \<lparr>player = (Warrior ''Hero'')\<lparr>current_hp := 96\<rparr>,
           enemy = (Character ''Minor Bandit'' 8 10 5 60 ''Quick Strike'')\<lparr>current_hp := 0\<rparr>\<rparr>,
          [], \<lparr>randints = sconst 1, randoms = sconst (1 / 2)\<rparr>)
   \<and> current_hp (enemy
        \<lparr>player = (Warrior ''Hero'')\<lparr>current_hp := 96\<rparr>,
         enemy = (Character ''Minor Bandit'' 8 10 5 60 ''Quick Strike'')\<lparr>current_hp := 0\<rparr>\<rparr>) = 0
   \<and> 0 < current_hp (player
        \<lparr>player = (Warrior ''Hero'')\<lparr>current_hp := 96\<rparr>,
         enemy = (Character ''Minor Bandit'' 8 10 5 60 ''Quick Strike'')\<lparr>current_hp := 0\<rparr>\<rparr>)"
proof -
  let ?cb = "\<lparr>player = Warrior ''Hero'',
           enemy = Character ''Minor Bandit'' 8 10 5 60 ''Quick Strike''\<rparr>"
  let ?g = "\<lparr>randints = [3, 100, 100, 6, 100, 100] @- sconst 1, randoms = sconst (1 / 2)\<rparr>"
  let ?cb' = "\<lparr>player = (Warrior ''Hero'')\<lparr>current_hp := 96\<rparr>,
           enemy = (Character ''Minor Bandit'' 8 10 5 60 ''Quick Strike'')\<lparr>current_hp := 0\<rparr>\<rparr>"
  let ?g' = "\<lparr>randints = sconst 1, randoms = sconst (1 / 2)\<rparr>"
  have p: "hp_ok (player ?cb)" and e: "hp_ok (enemy ?cb)"
    by (simp_all add: hp_ok_def Warrior_def Character_def)
  have run: "start_combat ?cb [''stats'', ''defend'', ''attack''] ?g = Inr (True, ?cb', [], ?g')"
    by (simp add: start_combat.simps player_defend_def player_attack_def enemy_turn_def
          random_def calculate_damage_def randint_def take_damage_def Warrior_def
          Character_def Let_def)
  from start_combat_outcome [OF run p e] p e run show ?thesis
    by simp
qed

text \<open>
  A defeat, through the return after the loop: the Mage defends and the Arch-Lich
  answers with Arcane Drain (roll 10, 180 damage).
\<close>

lemma start_combat_defeat_example:
  "start_combat
     \<lparr>player = Mage ''Hero'',
      enemy = Character ''Arch-Lich, Final Boss'' 10 15 18 200 ''Arcane Drain''\<rparr>
     [''defend'']
     \<lparr>randints = sconst 10, randoms = sconst (9 / 10)\<rparr>
   = Inr (False,
       \<lparr>player = (Mage ''Hero'')\<lparr>current_hp := 0\<rparr>,
        enemy = Character ''Arch-Lich, Final Boss'' 10 15 18 200 ''Arcane Drain''\<rparr>,
       [], \<lparr>randints = sconst 10, randoms = sconst (9 / 10)\<rparr>)"
  by (simp add: start_combat.simps player_defend_def enemy_turn_def enemy_special_move_def
        random_def randint_def take_damage_def Mage_def Character_def Let_def)

end
